theory Spec2Isabelle
  imports Main "HOL-Library.Word"
begin

section \<open>JavaScript strings\<close>

text \<open>
  A JavaScript string is a sequence of UTF-16 code units; \<^verbatim>\<open>length\<close>, \<^verbatim>\<open>includes\<close>,
  \<^verbatim>\<open>startsWith\<close>, \<^verbatim>\<open>split\<close>, \<^verbatim>\<open>trim\<close> and the regular expressions of the analyzer (none has
  the \<^verbatim>\<open>u\<close> flag) all work on code units. The literals of the source are ASCII and are
  written \<open>js ''...''\<close>.
\<close>

type_synonym jschar = "16 word"
type_synonym jsstring = "jschar list"

definition js :: "string \<Rightarrow> jsstring" where
  "js s = map of_char s"

definition LF :: jschar where "LF = 10"
definition TAB :: jschar where "TAB = 9"
definition SPACE :: jschar where "SPACE = 32"
definition APOSTROPHE :: jschar where "APOSTROPHE = 39"
definition QUOTATION_MARK :: jschar where "QUOTATION_MARK = 34"

text \<open>
  The code units that \<^verbatim>\<open>trim\<close>, \<^verbatim>\<open>trimStart\<close> and the class \<^verbatim>\<open>\s\<close> treat as white space
  (ECMAScript WhiteSpace and LineTerminator): U+0009 to U+000D, U+0020, U+00A0, U+1680,
  U+2000 to U+200A, U+2028, U+2029, U+202F, U+205F, U+3000 and U+FEFF.
\<close>

definition isWhiteSpace :: "jschar \<Rightarrow> bool" where
  "isWhiteSpace c =
     ((9 \<le> c \<and> c \<le> 13) \<or> c = 32 \<or> c = 160 \<or> c = 5760 \<or> (8192 \<le> c \<and> c \<le> 8202)
      \<or> c = 8232 \<or> c = 8233 \<or> c = 8239 \<or> c = 8287 \<or> c = 12288 \<or> c = 65279)"

text \<open>The class \<^verbatim>\<open>\w\<close> (without the \<^verbatim>\<open>i\<close> and \<^verbatim>\<open>u\<close> flags): \<^verbatim>\<open>[A-Za-z0-9_]\<close>.\<close>

definition isWordChar :: "jschar \<Rightarrow> bool" where
  "isWordChar c =
     ((65 \<le> c \<and> c \<le> 90) \<or> (97 \<le> c \<and> c \<le> 122) \<or> (48 \<le> c \<and> c \<le> 57) \<or> c = 95)"

definition trimStart :: "jsstring \<Rightarrow> jsstring" where
  "trimStart s = dropWhile isWhiteSpace s"

definition trimEnd :: "jsstring \<Rightarrow> jsstring" where
  "trimEnd s = rev (dropWhile isWhiteSpace (rev s))"

definition trim :: "jsstring \<Rightarrow> jsstring" where
  "trim s = trimEnd (trimStart s)"

fun startsWith :: "jsstring \<Rightarrow> jsstring \<Rightarrow> bool" where
  "startsWith s [] = True"
| "startsWith [] (p # ps) = False"
| "startsWith (c # cs) (p # ps) = (c = p \<and> startsWith cs ps)"

fun str_includes :: "jsstring \<Rightarrow> jsstring \<Rightarrow> bool" where
  "str_includes [] sub = startsWith [] sub"
| "str_includes (c # cs) sub = (startsWith (c # cs) sub \<or> str_includes cs sub)"

text \<open>\<^verbatim>\<open>content.split("\n")\<close>: the pieces between the line feeds, always at least one.\<close>

fun split_newline :: "jsstring \<Rightarrow> jsstring list" where
  "split_newline [] = [[]]"
| "split_newline (c # cs) =
     (if c = LF then [] # split_newline cs
      else (case split_newline cs of [] \<Rightarrow> [[c]] | l # ls \<Rightarrow> (c # l) # ls))"

text \<open>\<^verbatim>\<open>(line.match(/c/g) || []).length\<close> for a single code unit \<open>c\<close>.\<close>

definition countChar :: "jschar \<Rightarrow> jsstring \<Rightarrow> nat" where
  "countChar c line = length (filter (\<lambda>d. d = c) line)"

text \<open>The decimal digits of a count, as a template literal prints a non-negative integer.\<close>

definition digitChar :: "nat \<Rightarrow> jschar" where
  "digitChar d = of_nat (48 + d)"

fun numberToString :: "nat \<Rightarrow> jsstring" where
  "numberToString n =
     (if n < 10 then [digitChar n]
      else numberToString (n div 10) @ [digitChar (n mod 10)])"

declare numberToString.simps [simp del]

section \<open>The analysis result\<close>

datatype Quality = good | improving | needs_work

record CodeAnalysisResult =
  hasErrors :: bool
  errorCount :: nat
  hasWarnings :: bool
  warningCount :: nat
  lineCount :: nat
  complexity :: nat
  quality :: Quality
  lastError :: "jsstring option"
  lastWarning :: "jsstring option"
  lastSuccess :: "jsstring option"

section \<open>checkPythonSyntax\<close>

text \<open>
  \<^verbatim>\<open>hasMatchingExcept(lines, tryLineIndex)\<close>: the loop from \<open>tryLineIndex + 1\<close>, which returns
  true at a line whose trimmed form starts with \<^verbatim>\<open>except\<close> and breaks at one that starts
  with \<^verbatim>\<open>def \<close> or \<^verbatim>\<open>class \<close>.
\<close>

function hasMatchingExcept_loop :: "jsstring list \<Rightarrow> nat \<Rightarrow> bool" where
  "hasMatchingExcept_loop lines i =
     (if i < length lines then
        (if startsWith (trim (lines ! i)) (js ''except'') then True
         else if startsWith (trim (lines ! i)) (js ''def '')
                 \<or> startsWith (trim (lines ! i)) (js ''class '') then False
         else hasMatchingExcept_loop lines (i + 1))
      else False)"
  by pat_completeness auto
termination
  by (relation "measure (\<lambda>(lines, i). length lines - i)") auto

declare hasMatchingExcept_loop.simps [simp del]

definition hasMatchingExcept :: "jsstring list \<Rightarrow> nat \<Rightarrow> bool" where
  "hasMatchingExcept lines tryLineIndex = hasMatchingExcept_loop lines (tryLineIndex + 1)"

definition lineMessage :: "nat \<Rightarrow> string \<Rightarrow> jsstring" where
  "lineMessage lineNumber description =
     js ''Line '' @ numberToString lineNumber @ js '': '' @ js description"

text \<open>The messages that one iteration of the loop of \<^verbatim>\<open>checkPythonSyntax\<close> pushes, in order.\<close>

definition syntaxErrorsAt :: "jsstring list \<Rightarrow> nat \<Rightarrow> jsstring list" where
  "syntaxErrorsAt lines i =
     (let line = lines ! i; lineNumber = i + 1 in
        (if str_includes line (js ''print('') \<and> \<not> str_includes line (js '')'')
         then [lineMessage lineNumber ''Missing closing parenthesis in print statement'']
         else [])
      @ (if str_includes line (js ''if '') \<and> \<not> str_includes line (js '':'') \<and> length (trim line) > 0
         then [lineMessage lineNumber ''Missing colon after if statement''] else [])
      @ (if str_includes line (js ''def '') \<and> \<not> str_includes line (js '':'') \<and> length (trim line) > 0
         then [lineMessage lineNumber ''Missing colon after function definition''] else [])
      @ (if str_includes line (js ''for '') \<and> \<not> str_includes line (js '':'') \<and> length (trim line) > 0
         then [lineMessage lineNumber ''Missing colon after for loop''] else [])
      @ (if str_includes line (js ''while '') \<and> \<not> str_includes line (js '':'') \<and> length (trim line) > 0
         then [lineMessage lineNumber ''Missing colon after while loop''] else [])
      @ (if str_includes line (js ''try:'') \<and> \<not> hasMatchingExcept lines i
         then [lineMessage lineNumber ''try block without matching except''] else [])
      @ (if countChar APOSTROPHE line mod 2 \<noteq> 0 \<or> countChar QUOTATION_MARK line mod 2 \<noteq> 0
         then [lineMessage lineNumber ''Unmatched quotes''] else [])
      @ (if str_includes line (js ''='') \<and> str_includes line (js ''+'') \<and> str_includes line (js ''undefined'')
         then [lineMessage lineNumber ''Possible undefined variable usage''] else []))"

function checkPythonSyntax_loop :: "jsstring list \<Rightarrow> nat \<Rightarrow> jsstring list \<Rightarrow> jsstring list" where
  "checkPythonSyntax_loop lines i errors =
     (if i < length lines
      then checkPythonSyntax_loop lines (i + 1) (errors @ syntaxErrorsAt lines i)
      else errors)"
  by pat_completeness auto
termination
  by (relation "measure (\<lambda>(lines, i, errors). length lines - i)") auto

declare checkPythonSyntax_loop.simps [simp del]

definition checkPythonSyntax :: "jsstring \<Rightarrow> jsstring list" where
  "checkPythonSyntax content = checkPythonSyntax_loop (split_newline content) 0 []"

section \<open>checkPythonWarnings\<close>

text \<open>\<^verbatim>\<open>/\s+$/.test(line)\<close>: the line ends with a white space code unit.\<close>

definition endsWithWhiteSpace :: "jsstring \<Rightarrow> bool" where
  "endsWithWhiteSpace line = (case rev line of [] \<Rightarrow> False | c # _ \<Rightarrow> isWhiteSpace c)"

text \<open>
  \<^verbatim>\<open>\b(TODO|FIXME)\b\<close> at the start of \<open>s\<close>, where \<open>prevWord\<close> tells whether the code unit
  before \<open>s\<close> is a word character: the result is the alternative that matches there.
\<close>

definition wordAt :: "jsstring \<Rightarrow> jsstring \<Rightarrow> bool" where
  "wordAt w s =
     (startsWith s w \<and> (case drop (length w) s of [] \<Rightarrow> True | d # _ \<Rightarrow> \<not> isWordChar d))"

text \<open>\<^verbatim>\<open>line.match(/\b(TODO|FIXME)\b/)?.[0]\<close>: the leftmost match, if there is one.\<close>

fun matchNote :: "bool \<Rightarrow> jsstring \<Rightarrow> jsstring option" where
  "matchNote prevWord [] = None"
| "matchNote prevWord (c # cs) =
     (if \<not> prevWord \<and> wordAt (js ''TODO'') (c # cs) then Some (js ''TODO'')
      else if \<not> prevWord \<and> wordAt (js ''FIXME'') (c # cs) then Some (js ''FIXME'')
      else matchNote (isWordChar c) cs)"

text \<open>\<^verbatim>\<open>/^\t+/.test(line)\<close>.\<close>

definition startsWithTabs :: "jsstring \<Rightarrow> bool" where
  "startsWithTabs line = startsWith line [TAB]"

text \<open>\<^verbatim>\<open>/^(\t+ +| +\t+)/.test(line)\<close>: a run of tabs and then a space, or a run of spaces and then
  a tab.\<close>

definition mixedIndentation :: "jsstring \<Rightarrow> bool" where
  "mixedIndentation line =
     ((startsWith line [TAB] \<and> startsWith (dropWhile (\<lambda>c. c = TAB) line) [SPACE])
      \<or> (startsWith line [SPACE] \<and> startsWith (dropWhile (\<lambda>c. c = SPACE) line) [TAB]))"

definition warningsAt :: "jsstring list \<Rightarrow> nat \<Rightarrow> jsstring list" where
  "warningsAt lines i =
     (let line = lines ! i; lineNumber = i + 1 in
        (if length line > 120 then [lineMessage lineNumber ''Line exceeds 120 characters''] else [])
      @ (if endsWithWhiteSpace line \<and> length (trim line) > 0
         then [lineMessage lineNumber ''Trailing whitespace''] else [])
      @ (case matchNote False line of
           None \<Rightarrow> []
         | Some note \<Rightarrow>
             [js ''Line '' @ numberToString lineNumber @ js '': Contains '' @ note @ js '' note''])
      @ (if startsWithTabs line
         then [lineMessage lineNumber ''Uses tab indentation (prefer spaces)''] else [])
      @ (if mixedIndentation line
         then [lineMessage lineNumber ''Mixed indentation (tabs and spaces)''] else []))"

function checkPythonWarnings_loop :: "jsstring list \<Rightarrow> nat \<Rightarrow> jsstring list \<Rightarrow> jsstring list" where
  "checkPythonWarnings_loop lines i warnings =
     (if i < length lines
      then checkPythonWarnings_loop lines (i + 1) (warnings @ warningsAt lines i)
      else warnings)"
  by pat_completeness auto
termination
  by (relation "measure (\<lambda>(lines, i, warnings). length lines - i)") auto

declare checkPythonWarnings_loop.simps [simp del]

definition checkPythonWarnings :: "jsstring \<Rightarrow> jsstring list" where
  "checkPythonWarnings content = checkPythonWarnings_loop (split_newline content) 0 []"

section \<open>calculateComplexity and assessCodeQuality\<close>

text \<open>The body of the loop of \<^verbatim>\<open>calculateComplexity\<close>: the counter after one line.\<close>

definition complexityStep :: "jsstring \<Rightarrow> nat \<Rightarrow> nat" where
  "complexityStep line c0 =
     (let trimmed = trim line;
          c1 = (if startsWith trimmed (js ''if '') \<or> startsWith trimmed (js ''elif '')
                then c0 + 1 else c0);
          c2 = (if startsWith trimmed (js ''for '') \<or> startsWith trimmed (js ''while '')
                then c1 + 2 else c1);
          c3 = (if startsWith trimmed (js ''try:'') \<or> startsWith trimmed (js ''except '')
                then c2 + 1 else c2);
          c4 = (if startsWith trimmed (js ''def '') \<or> startsWith trimmed (js ''class '')
                then c3 + 1 else c3);
          c5 = (if str_includes trimmed (js '' and '') \<or> str_includes trimmed (js '' or '')
                then c4 + 1 else c4);
          c6 = (if str_includes trimmed (js ''lambda '') then c5 + 2 else c5);
          indentLevel = length line - length (trimStart line)
      in if indentLevel > 8 then c6 + 1 else c6)"

fun calculateComplexity_loop :: "jsstring list \<Rightarrow> nat \<Rightarrow> nat" where
  "calculateComplexity_loop [] c = c"
| "calculateComplexity_loop (line # rest) c = calculateComplexity_loop rest (complexityStep line c)"

definition calculateComplexity :: "jsstring list \<Rightarrow> nat" where
  "calculateComplexity lines = calculateComplexity_loop lines 0"

definition assessCodeQuality :: "jsstring list \<Rightarrow> nat \<Rightarrow> nat \<Rightarrow> Quality" where
  "assessCodeQuality lines c e =
     (if e = 0 \<and> c < 10 \<and> length lines > 0 then good
      else if e = 0 \<and> length lines > 0 then improving
      else needs_work)"

section \<open>analyzePythonCode\<close>

definition analyzePythonCode :: "jsstring \<Rightarrow> CodeAnalysisResult" where
  "analyzePythonCode content =
     (let lines = filter (\<lambda>line. length (trim line) > 0) (split_newline content);
          n = length lines;
          syntaxErrors = checkPythonSyntax content;
          hasE = (length syntaxErrors > 0);
          warnings = checkPythonWarnings content;
          hasW = (length warnings > 0);
          c = calculateComplexity lines;
          q = assessCodeQuality lines c (length syntaxErrors)
      in \<lparr> hasErrors = hasE,
           errorCount = length syntaxErrors,
           hasWarnings = hasW,
           warningCount = length warnings,
           lineCount = n,
           complexity = c,
           quality = q,
           lastError = (if hasE then Some (syntaxErrors ! 0) else None),
           lastWarning = (if hasW then Some (warnings ! 0) else None),
           lastSuccess = (if \<not> hasE \<and> n > 0 then Some (js ''Code looks good!'') else None) \<rparr>)"

section \<open>The analyzer: cache, listener, analyzeFile and updateBotEmotion\<close>

text \<open>
  The fields of the class. \<open>onEmotionChange\<close> tells whether a callback is registered; a call
  of the callback is the output of the event, the pair of its arguments.
\<close>

record CodeAnalyzer =
  currentFile :: "jsstring option"
  analysisResults :: "jsstring \<rightharpoonup> CodeAnalysisResult"
  onEmotionChange :: bool

record TextDocument =
  fileName :: jsstring
  languageId :: jsstring
  getText :: jsstring

text \<open>The analyzer after its constructor when no editor is active, and \<^verbatim>\<open>setEmotionCallback\<close>.\<close>

definition newCodeAnalyzer :: CodeAnalyzer where
  "newCodeAnalyzer = \<lparr> currentFile = None, analysisResults = Map.empty, onEmotionChange = False \<rparr>"

definition setEmotionCallback :: "CodeAnalyzer \<Rightarrow> CodeAnalyzer" where
  "setEmotionCallback this = this\<lparr> onEmotionChange := True \<rparr>"

text \<open>
  The emotion and the reason that \<^verbatim>\<open>updateBotEmotion\<close> computes (its \<^verbatim>\<open>if\<close> chain).
  \<^verbatim>\<open>path.basename\<close> is Node's and depends on the platform: it is the parameter \<open>basename\<close>.
\<close>

definition emotionAndReason ::
  "(jsstring \<Rightarrow> jsstring) \<Rightarrow> CodeAnalysisResult \<Rightarrow> jsstring \<Rightarrow> jsstring \<times> jsstring" where
  "emotionAndReason basename result file =
     (if hasErrors result then
        (js ''frustrated'',
         js ''Found '' @ numberToString (errorCount result) @ js '' syntax error(s) in ''
           @ basename file)
      else if hasWarnings result then
        (js ''concerned'', js ''Warnings detected in '' @ basename file)
      else if lineCount result = 0 then
        (js ''happy'', js ''Empty file - ready to start coding!'')
      else
        (js ''happy'',
         js ''Great code! '' @ numberToString (lineCount result)
           @ js '' lines written, no errors found''))"

text \<open>
  \<^verbatim>\<open>updateBotEmotion(result, fileName, previousResult)\<close>: \<open>None\<close> when the callback is not
  called, \<open>Some (emotion, reason)\<close> when it is called with these arguments.
\<close>

definition updateBotEmotion ::
  "(jsstring \<Rightarrow> jsstring) \<Rightarrow> CodeAnalyzer \<Rightarrow> CodeAnalysisResult \<Rightarrow> jsstring
     \<Rightarrow> CodeAnalysisResult option \<Rightarrow> (jsstring \<times> jsstring) option" where
  "updateBotEmotion basename this result file previousResult =
     (if \<not> onEmotionChange this then None
      else
        (let baseline = (case previousResult of
                           Some p \<Rightarrow> Some p
                         | None \<Rightarrow> analysisResults this file)
         in case baseline of
              None \<Rightarrow> Some (emotionAndReason basename result file)
            | Some b \<Rightarrow>
                if hasErrors b \<noteq> hasErrors result
                   \<or> errorCount b \<noteq> errorCount result
                   \<or> lineCount b \<noteq> lineCount result
                then Some (emotionAndReason basename result file)
                else None))"

text \<open>
  \<^verbatim>\<open>analyzeFile(document)\<close>. The body is a \<^verbatim>\<open>try\<close> block whose \<^verbatim>\<open>catch\<close> only logs: a fault
  of the analysis is the value \<open>Inl\<close> of the parameter \<open>analyse\<close>, and the function itself
  always returns the analyzer and the call of the callback, if any.
\<close>

datatype fault = Fault

definition analyzeFileWith ::
  "(jsstring \<Rightarrow> fault + CodeAnalysisResult) \<Rightarrow> (jsstring \<Rightarrow> jsstring) \<Rightarrow> CodeAnalyzer
     \<Rightarrow> TextDocument \<Rightarrow> CodeAnalyzer \<times> (jsstring \<times> jsstring) option" where
  "analyzeFileWith analyse basename this document =
     (case analyse (getText document) of
        Inl error \<Rightarrow> (this, None)
      | Inr result \<Rightarrow>
          (let this1 = this\<lparr> currentFile := Some (fileName document) \<rparr>;
               previous = analysisResults this1 (fileName document);
               this2 = this1\<lparr> analysisResults :=
                         (analysisResults this1)(fileName document \<mapsto> result) \<rparr>
           in (this2, updateBotEmotion basename this2 result (fileName document) previous)))"

text \<open>The analysis of the source never fails.\<close>

definition analyzeFile ::
  "(jsstring \<Rightarrow> jsstring) \<Rightarrow> CodeAnalyzer \<Rightarrow> TextDocument
     \<Rightarrow> CodeAnalyzer \<times> (jsstring \<times> jsstring) option" where
  "analyzeFile basename this document =
     analyzeFileWith (\<lambda>content. Inr (analyzePythonCode content)) basename this document"

section \<open>The specification's wording\<close>

text \<open>
  The definitions of this section follow the words of the specification, for comparison with
  the functions above, which follow the source.
\<close>

text \<open>Quality as a function of the error count, the complexity and the line count.\<close>

definition qualityOf :: "nat \<Rightarrow> nat \<Rightarrow> nat \<Rightarrow> Quality" where
  "qualityOf e c n =
     (if e = 0 \<and> c < 10 \<and> n > 0 then good
      else if e = 0 \<and> n > 0 then improving
      else needs_work)"

text \<open>The contribution of one line to the complexity: seven independent summands.\<close>

definition lineContribution :: "jsstring \<Rightarrow> nat" where
  "lineContribution line =
     (if startsWith (trim line) (js ''if '') \<or> startsWith (trim line) (js ''elif '') then 1 else 0)
   + (if startsWith (trim line) (js ''for '') \<or> startsWith (trim line) (js ''while '') then 2 else 0)
   + (if startsWith (trim line) (js ''try:'') \<or> startsWith (trim line) (js ''except '') then 1 else 0)
   + (if startsWith (trim line) (js ''def '') \<or> startsWith (trim line) (js ''class '') then 1 else 0)
   + (if str_includes (trim line) (js '' and '') \<or> str_includes (trim line) (js '' or '') then 1 else 0)
   + (if str_includes (trim line) (js ''lambda '') then 2 else 0)
   + (if length line - length (trimStart line) > 8 then 1 else 0)"

text \<open>
  An \<^verbatim>\<open>except\<close> is reachable from line \<open>i\<close>: a later line whose trimmed form starts with
  \<^verbatim>\<open>except\<close>, with no line whose trimmed form starts with \<^verbatim>\<open>def \<close> or \<^verbatim>\<open>class \<close> strictly between.
\<close>

definition startsExcept :: "jsstring \<Rightarrow> bool" where
  "startsExcept line = startsWith (trim line) (js ''except'')"

definition startsDefOrClass :: "jsstring \<Rightarrow> bool" where
  "startsDefOrClass line =
     (startsWith (trim line) (js ''def '') \<or> startsWith (trim line) (js ''class ''))"

definition exceptReachable :: "jsstring list \<Rightarrow> nat \<Rightarrow> bool" where
  "exceptReachable lines i =
     (\<exists>j \<in> {i + 1..<length lines}. startsExcept (lines ! j)
          \<and> (\<forall>k \<in> {i + 1..<j}. \<not> startsDefOrClass (lines ! k)))"

text \<open>\<^verbatim>\<open>lines.join("\n")\<close>, the inverse of the newline split.\<close>

fun joinLines :: "jsstring list \<Rightarrow> jsstring" where
  "joinLines [] = []"
| "joinLines [l] = l"
| "joinLines (l # m # ls) = l @ LF # joinLines (m # ls)"

text \<open>The first element of a list of messages, if there is one.\<close>

definition firstMessage :: "jsstring list \<Rightarrow> jsstring option" where
  "firstMessage ms = (case ms of [] \<Rightarrow> None | m # _ \<Rightarrow> Some m)"

text \<open>The three emotion labels.\<close>

definition emotionLabels :: "jsstring set" where
  "emotionLabels = {js ''frustrated'', js ''concerned'', js ''happy''}"

section \<open>Loops as sums and concatenations\<close>

lemma checkPythonSyntax_loop_concat:
  "checkPythonSyntax_loop lines i errs = errs @ concat (map (syntaxErrorsAt lines) [i..<length lines])"
proof (induction lines i errs rule: checkPythonSyntax_loop.induct)
  case (1 lines i errs)
  show ?case
  proof (cases "i < length lines")
    case True
    then have "[i..<length lines] = i # [i + 1..<length lines]"
      by (simp add: upt_conv_Cons)
    with 1 True show ?thesis
      by (subst checkPythonSyntax_loop.simps) simp
  next
    case False
    then show ?thesis
      by (subst checkPythonSyntax_loop.simps) simp
  qed
qed

lemma checkPythonWarnings_loop_concat:
  "checkPythonWarnings_loop lines i ws = ws @ concat (map (warningsAt lines) [i..<length lines])"
proof (induction lines i ws rule: checkPythonWarnings_loop.induct)
  case (1 lines i ws)
  show ?case
  proof (cases "i < length lines")
    case True
    then have "[i..<length lines] = i # [i + 1..<length lines]"
      by (simp add: upt_conv_Cons)
    with 1 True show ?thesis
      by (subst checkPythonWarnings_loop.simps) simp
  next
    case False
    then show ?thesis
      by (subst checkPythonWarnings_loop.simps) simp
  qed
qed

lemma checkPythonSyntax_concat:
  "checkPythonSyntax content =
     concat (map (syntaxErrorsAt (split_newline content)) [0..<length (split_newline content)])"
  by (simp add: checkPythonSyntax_def checkPythonSyntax_loop_concat)

lemma checkPythonWarnings_concat:
  "checkPythonWarnings content =
     concat (map (warningsAt (split_newline content)) [0..<length (split_newline content)])"
  by (simp add: checkPythonWarnings_def checkPythonWarnings_loop_concat)

text \<open>
  The newline split is the one of JavaScript: joining its pieces with line feeds gives the
  buffer back, no piece contains a line feed, and there is one piece more than line feeds.
\<close>

lemma split_newline_join: "joinLines (split_newline s) = s"
proof (induction s)
  case Nil
  then show ?case by simp
next
  case (Cons c s)
  then show ?case
    by (cases "split_newline s"; cases "tl (split_newline s)") (auto split: list.splits)
qed

lemma split_newline_no_LF: "l \<in> set (split_newline s) \<Longrightarrow> LF \<notin> set l"
  by (induction s arbitrary: l) (auto split: list.splits if_splits)

lemma split_newline_length: "length (split_newline s) = Suc (countChar LF s)"
  by (induction s) (auto simp: countChar_def split: list.splits)

lemma split_newline_not_Nil: "split_newline s \<noteq> []"
  by (induction s) (auto split: list.splits)

lemma split_newline_only_LF: "set s \<subseteq> {LF} \<Longrightarrow> set (split_newline s) \<subseteq> {[]}"
  by (induction s) auto

lemma trim_Nil: "trim [] = []"
  by (simp add: trim_def trimStart_def trimEnd_def)

lemma analyzePythonCode_lineCount:
  "lineCount (analyzePythonCode content) =
     length (filter (\<lambda>line. trim line \<noteq> []) (split_newline content))"
  by (simp add: analyzePythonCode_def Let_def)

lemma lineCount_only_LF:
  assumes "set content \<subseteq> {LF}"
  shows "lineCount (analyzePythonCode content) = 0"
proof -
  have "\<forall>line \<in> set (split_newline content). trim line = []"
    using split_newline_only_LF [OF assms] trim_Nil by auto
  then have "filter (\<lambda>line. trim line \<noteq> []) (split_newline content) = []"
    by (simp add: filter_empty_conv)
  then show ?thesis by (simp add: analyzePythonCode_lineCount)
qed

section \<open>Messages determine their line\<close>

lemma unat_of_char16: "unat (of_char c :: 16 word) = of_char c"
proof -
  have lt: "(of_char c :: nat) < 256"
    using of_char_mod_256 [of c, where ?'a = nat] by (metis mod_less_divisor zero_less_numeral)
  have "(of_char c :: 16 word) = of_nat (of_char c)"
    by (simp add: of_nat_of_char)
  then have "unat (of_char c :: 16 word) = (of_char c :: nat) mod 65536"
    by (simp add: unat_of_nat)
  moreover from lt have "(of_char c :: nat) < 65536" by linarith
  ultimately show ?thesis by (simp only: mod_less)
qed

lemma of_char16_eq_iff: "((of_char c :: 16 word) = of_char d) = (c = d)"
proof
  assume "(of_char c :: 16 word) = of_char d"
  then have "unat (of_char c :: 16 word) = unat (of_char d :: 16 word)" by simp
  then show "c = d" by (simp add: unat_of_char16)
qed simp

lemma js_eq_iff: "(js s = js t) = (s = t)"
  by (simp add: js_def inj_map_eq_map inj_on_def of_char16_eq_iff)

lemma digit16:
  assumes "k < 10"
  shows "unat (digitChar k) = 48 + k"
proof -
  have "unat (of_nat (48 + k) :: 16 word) = (48 + k) mod 2 ^ LENGTH(16)"
    by (rule unat_of_nat)
  with assms show ?thesis by (simp add: digitChar_def)
qed

lemma numberToString_not_Nil: "numberToString n \<noteq> []"
  by (subst numberToString.simps) simp

lemma numberToString_last: "last (numberToString n) = digitChar (n mod 10)"
  by (subst numberToString.simps) (simp add: numberToString_not_Nil)

lemma numberToString_butlast:
  "butlast (numberToString n) = (if n < 10 then [] else numberToString (n div 10))"
  by (subst numberToString.simps) (simp add: numberToString_not_Nil)

lemma numberToString_inj: "numberToString n = numberToString m \<Longrightarrow> n = m"
proof (induction n arbitrary: m rule: less_induct)
  case (less n)
  from less.prems have "last (numberToString n) = last (numberToString m)" by simp
  then have "digitChar (n mod 10) = digitChar (m mod 10)"
    by (simp only: numberToString_last)
  then have "unat (digitChar (n mod 10)) = unat (digitChar (m mod 10))"
    by simp
  then have md: "n mod 10 = m mod 10"
    by (simp add: digit16)
  from less.prems have bl: "butlast (numberToString n) = butlast (numberToString m)" by simp
  show ?case
  proof (cases "n < 10")
    case True
    with bl have "m < 10"
      using numberToString_not_Nil [of "m div 10"]
      by (auto simp: numberToString_butlast split: if_splits)
    with True md show ?thesis by simp
  next
    case False
    with bl have m10: "\<not> m < 10"
      using numberToString_not_Nil [of "n div 10"]
      by (auto simp: numberToString_butlast split: if_splits)
    with False bl have "numberToString (n div 10) = numberToString (m div 10)"
      by (simp add: numberToString_butlast)
    moreover from False have "n div 10 < n" by simp
    ultimately have "n div 10 = m div 10" by (rule less.IH [rotated])
    with md show ?thesis
      by (metis div_mult_mod_eq)
  qed
qed

lemma numberToString_digits: "c \<in> set (numberToString n) \<Longrightarrow> 48 \<le> unat c \<and> unat c \<le> 57"
proof (induction n rule: numberToString.induct)
  case (1 n)
  show ?case
  proof (cases "n < 10")
    case True
    with "1.prems" have "c = digitChar n"
      by (subst (asm) numberToString.simps) simp
    with True show ?thesis by (simp add: digit16)
  next
    case False
    with "1.prems" have "c \<in> set (numberToString (n div 10)) \<or> c = digitChar (n mod 10)"
      by (subst (asm) numberToString.simps) auto
    then show ?thesis
    proof
      assume "c \<in> set (numberToString (n div 10))"
      with False "1.IH" show ?thesis by simp
    next
      assume "c = digitChar (n mod 10)"
      then show ?thesis by (simp add: digit16)
    qed
  qed
qed

lemma colon_not_digit: "58 \<notin> set (numberToString n)"
proof
  assume "58 \<in> set (numberToString n)"
  then have "unat (58 :: 16 word) \<le> 57" using numberToString_digits by blast
  then show False by simp
qed

lemma append_sep_unique:
  "a \<notin> set xs \<Longrightarrow> a \<notin> set ys \<Longrightarrow> xs @ a # r = ys @ a # r' \<Longrightarrow> xs = ys \<and> r = r'"
proof (induction xs arbitrary: ys)
  case Nil
  then show ?case by (cases ys) auto
next
  case (Cons x xs)
  then show ?case by (cases ys) auto
qed

lemma lineMessage_eq_iff: "(lineMessage n d = lineMessage m e) = (n = m \<and> d = e)"
proof
  assume "lineMessage n d = lineMessage m e"
  then have "numberToString n @ 58 # (32 # js d) = numberToString m @ 58 # (32 # js e)"
    by (simp add: lineMessage_def js_def)
  then have "numberToString n = numberToString m \<and> 32 # js d = 32 # js e"
    by (rule append_sep_unique [OF colon_not_digit colon_not_digit])
  then show "n = m \<and> d = e"
    by (simp add: js_eq_iff numberToString_inj)
qed simp

section \<open>The scan for an except and the complexity sum\<close>

lemma hasMatchingExcept_loop_iff:
  "hasMatchingExcept_loop lines i =
     (\<exists>j. i \<le> j \<and> j < length lines \<and> startsExcept (lines ! j)
          \<and> (\<forall>k. i \<le> k \<and> k < j \<longrightarrow> \<not> startsDefOrClass (lines ! k)))"
proof (induction lines i rule: hasMatchingExcept_loop.induct)
  case (1 lines i)
  show ?case
  proof (cases "i < length lines")
    case False
    then show ?thesis
      by (subst hasMatchingExcept_loop.simps) auto
  next
    case inside: True
    show ?thesis
    proof (cases "startsExcept (lines ! i)")
      case True
      with inside have "hasMatchingExcept_loop lines i"
        by (subst hasMatchingExcept_loop.simps) (simp add: startsExcept_def)
      moreover from True inside
      have "\<exists>j. i \<le> j \<and> j < length lines \<and> startsExcept (lines ! j)
                \<and> (\<forall>k. i \<le> k \<and> k < j \<longrightarrow> \<not> startsDefOrClass (lines ! k))"
        by (intro exI [of _ i]) auto
      ultimately show ?thesis by simp
    next
      case noExcept: False
      show ?thesis
      proof (cases "startsDefOrClass (lines ! i)")
        case True
        with inside noExcept have "\<not> hasMatchingExcept_loop lines i"
          by (subst hasMatchingExcept_loop.simps) (simp add: startsExcept_def startsDefOrClass_def)
        moreover have "\<not> (\<exists>j. i \<le> j \<and> j < length lines \<and> startsExcept (lines ! j)
                \<and> (\<forall>k. i \<le> k \<and> k < j \<longrightarrow> \<not> startsDefOrClass (lines ! k)))"
        proof
          assume "\<exists>j. i \<le> j \<and> j < length lines \<and> startsExcept (lines ! j)
                \<and> (\<forall>k. i \<le> k \<and> k < j \<longrightarrow> \<not> startsDefOrClass (lines ! k))"
          then obtain j where j: "i \<le> j" "startsExcept (lines ! j)"
            "\<forall>k. i \<le> k \<and> k < j \<longrightarrow> \<not> startsDefOrClass (lines ! k)" by blast
          from j(1,2) noExcept have "i < j" by (cases "i = j") auto
          with j(3) True show False by auto
        qed
        ultimately show ?thesis by simp
      next
        case noBoundary: False
        from inside noExcept noBoundary
        have step: "hasMatchingExcept_loop lines i = hasMatchingExcept_loop lines (i + 1)"
          by (subst hasMatchingExcept_loop.simps) (simp add: startsExcept_def startsDefOrClass_def)
        from inside noExcept noBoundary
        have ih: "hasMatchingExcept_loop lines (i + 1) =
           (\<exists>j. i + 1 \<le> j \<and> j < length lines \<and> startsExcept (lines ! j)
                \<and> (\<forall>k. i + 1 \<le> k \<and> k < j \<longrightarrow> \<not> startsDefOrClass (lines ! k)))"
          by (intro "1.IH") (simp_all add: startsExcept_def startsDefOrClass_def)
        have "(\<exists>j. i + 1 \<le> j \<and> j < length lines \<and> startsExcept (lines ! j)
                \<and> (\<forall>k. i + 1 \<le> k \<and> k < j \<longrightarrow> \<not> startsDefOrClass (lines ! k)))
           = (\<exists>j. i \<le> j \<and> j < length lines \<and> startsExcept (lines ! j)
                \<and> (\<forall>k. i \<le> k \<and> k < j \<longrightarrow> \<not> startsDefOrClass (lines ! k)))"
          (is "?L = ?R")
        proof
          assume ?L
          then obtain j where j: "i + 1 \<le> j" "j < length lines" "startsExcept (lines ! j)"
            "\<forall>k. i + 1 \<le> k \<and> k < j \<longrightarrow> \<not> startsDefOrClass (lines ! k)" by blast
          have "\<forall>k. i \<le> k \<and> k < j \<longrightarrow> \<not> startsDefOrClass (lines ! k)"
          proof (intro allI impI)
            fix k assume k: "i \<le> k \<and> k < j"
            show "\<not> startsDefOrClass (lines ! k)"
            proof (cases "k = i")
              case True
              with noBoundary show ?thesis by simp
            next
              case False
              with k have "i + 1 \<le> k \<and> k < j" by simp
              with j(4) show ?thesis by blast
            qed
          qed
          with j show ?R by (intro exI [of _ j]) simp
        next
          assume ?R
          then obtain j where j: "i \<le> j" "j < length lines" "startsExcept (lines ! j)"
            "\<forall>k. i \<le> k \<and> k < j \<longrightarrow> \<not> startsDefOrClass (lines ! k)" by blast
          from j(1,3) noExcept have "i + 1 \<le> j" by (cases "i = j") auto
          with j show ?L by (intro exI [of _ j]) simp
        qed
        with step ih show ?thesis by simp
      qed
    qed
  qed
qed

lemma hasMatchingExcept_iff: "hasMatchingExcept lines i = exceptReachable lines i"
  by (auto simp add: hasMatchingExcept_def exceptReachable_def hasMatchingExcept_loop_iff
        Suc_le_eq)

lemma complexityStep_add: "complexityStep line c = c + lineContribution line"
  by (simp add: complexityStep_def lineContribution_def Let_def)

lemma calculateComplexity_loop_sum:
  "calculateComplexity_loop lines c = c + sum_list (map lineContribution lines)"
  by (induction lines arbitrary: c) (simp_all add: complexityStep_add)

lemma calculateComplexity_sum: "calculateComplexity lines = sum_list (map lineContribution lines)"
  by (simp add: calculateComplexity_def calculateComplexity_loop_sum)

lemma analyzePythonCode_complexity:
  "complexity (analyzePythonCode content) =
     sum_list (map lineContribution (filter (\<lambda>line. trim line \<noteq> []) (split_newline content)))"
  by (simp add: analyzePythonCode_def Let_def calculateComplexity_sum)

lemma concat_first:
  "concat (map f [0..<n]) = e # es \<Longrightarrow>
     \<exists>i<n. (\<forall>j<i. f j = []) \<and> (\<exists>t. f i = e # t)"
proof (induction n arbitrary: es)
  case 0
  then show ?case by simp
next
  case (Suc n)
  show ?case
  proof (cases "concat (map f [0..<n])")
    case Nil
    then have all: "\<forall>j<n. f j = []" by auto
    from Suc.prems have "concat (map f [0..<n]) @ f n = e # es" by simp
    then have "f n = e # es" by (simp only: Nil append_Nil)
    with all show ?thesis by (intro exI [of _ n]) simp
  next
    case (Cons a as)
    with Suc.prems have "a = e" by simp
    with Cons Suc.IH obtain i where "i < n" "\<forall>j<i. f j = []" "\<exists>t. f i = e # t" by blast
    then show ?thesis by (intro exI [of _ i]) simp
  qed
qed

lemma try_message_at:
  "(lineMessage n ''try block without matching except'' \<in> set (syntaxErrorsAt lines j))
     = (n = j + 1 \<and> str_includes (lines ! j) (js ''try:'') \<and> \<not> hasMatchingExcept lines j)"
  by (auto simp add: syntaxErrorsAt_def Let_def lineMessage_eq_iff)

lemma try_message_reported:
  "(lineMessage n ''try block without matching except'' \<in> set (checkPythonSyntax content))
     = (\<exists>j < length (split_newline content). n = j + 1
          \<and> str_includes (split_newline content ! j) (js ''try:'')
          \<and> \<not> hasMatchingExcept (split_newline content) j)"
  by (auto simp add: checkPythonSyntax_concat try_message_at)

section \<open>First messages and the events of the analyzer\<close>

lemma firstMessage_concat_first:
  assumes "firstMessage (concat (map f [0..<n])) = Some e"
  shows "\<exists>i<n. (\<forall>j<i. f j = []) \<and> (\<exists>t. f i = e # t)"
proof -
  from assms obtain es where "concat (map f [0..<n]) = e # es"
    by (auto simp: firstMessage_def split: list.splits)
  then show ?thesis by (rule concat_first)
qed

lemma nth_0_firstMessage: "ms \<noteq> [] \<Longrightarrow> Some (ms ! 0) = firstMessage ms"
  by (cases ms) (simp_all add: firstMessage_def)

lemma analyzePythonCode_lastError:
  "lastError (analyzePythonCode content) = firstMessage (checkPythonSyntax content)"
  by (cases "checkPythonSyntax content") (simp_all add: analyzePythonCode_def Let_def firstMessage_def)

lemma analyzePythonCode_lastWarning:
  "lastWarning (analyzePythonCode content) = firstMessage (checkPythonWarnings content)"
  by (cases "checkPythonWarnings content") (simp_all add: analyzePythonCode_def Let_def firstMessage_def)

lemma analyzeFile_state:
  "fst (analyzeFile basename this document)
     = this\<lparr> currentFile := Some (fileName document),
            analysisResults := (analysisResults this)
               (fileName document \<mapsto> analyzePythonCode (getText document)) \<rparr>"
  by (simp add: analyzeFile_def analyzeFileWith_def Let_def)

lemma analyzeFile_callback:
  "snd (analyzeFile basename this document)
     = (if \<not> onEmotionChange this then None
        else case analysisResults this (fileName document) of
               None \<Rightarrow> None
             | Some p \<Rightarrow>
                 if hasErrors p \<noteq> hasErrors (analyzePythonCode (getText document))
                    \<or> errorCount p \<noteq> errorCount (analyzePythonCode (getText document))
                    \<or> lineCount p \<noteq> lineCount (analyzePythonCode (getText document))
                 then Some (emotionAndReason basename (analyzePythonCode (getText document))
                              (fileName document))
                 else None)"
  by (simp add: analyzeFile_def analyzeFileWith_def updateBotEmotion_def Let_def
           split: option.splits)

lemma updateBotEmotion_result:
  "updateBotEmotion basename this r d previous = None
   \<or> updateBotEmotion basename this r d previous = Some (emotionAndReason basename r d)"
  by (simp add: updateBotEmotion_def Let_def split: option.splits)

lemma emotionAndReason_label: "fst (emotionAndReason basename r d) \<in> emotionLabels"
  by (simp add: emotionAndReason_def emotionLabels_def)

section \<open>The claims\<close>

text \<open>
  C2. The quality of every buffer is a function of its error count, complexity and line
  count, in this order of precedence: good when there is no error, the complexity is below 10
  and there is a non-blank line; improving when there is no error and there is a non-blank
  line; needs\_work otherwise. \<open>(0, 3, 5)\<close> gives good, \<open>(0, 12, 5)\<close> improving, \<open>(1, 0, 5)\<close>
  needs\_work, and the empty buffer needs\_work.
\<close>

theorem C2_quality_classification:
  "quality (analyzePythonCode content)
     = qualityOf (errorCount (analyzePythonCode content)) (complexity (analyzePythonCode content))
         (lineCount (analyzePythonCode content))
   \<and> assessCodeQuality lines c e = qualityOf e c (length lines)
   \<and> (qualityOf e c n = good) = (e = 0 \<and> c < 10 \<and> n > 0)
   \<and> (qualityOf e c n = improving) = (e = 0 \<and> c \<ge> 10 \<and> n > 0)
   \<and> (qualityOf e c n = needs_work) = (e > 0 \<or> n = 0)
   \<and> qualityOf 0 3 5 = good
   \<and> qualityOf 0 12 5 = improving
   \<and> qualityOf 1 0 5 = needs_work
   \<and> quality (analyzePythonCode []) = needs_work"
proof -
  have "assessCodeQuality ls k m = qualityOf m k (length ls)" for ls k m
    by (simp add: assessCodeQuality_def qualityOf_def)
  moreover have "quality (analyzePythonCode []) = needs_work"
    by (simp add: analyzePythonCode_def Let_def assessCodeQuality_def trim_Nil)
  ultimately show ?thesis
    by (simp add: analyzePythonCode_def Let_def qualityOf_def)
qed

theorem C2_quality_classification_witness:
  "quality (analyzePythonCode (js ''x = 1'')) = good
   \<and> assessCodeQuality [js ''a'', js ''b''] 12 0 = improving"
proof -
  have e: "errorCount (analyzePythonCode (js ''x = 1'')) = 0" by code_simp
  have c: "complexity (analyzePythonCode (js ''x = 1'')) = 0" by code_simp
  have n: "lineCount (analyzePythonCode (js ''x = 1'')) = 1" by code_simp
  from C2_quality_classification [of "js ''x = 1''" "[js ''a'', js ''b'']" 12 0]
  have "quality (analyzePythonCode (js ''x = 1'')) = qualityOf 0 0 1"
    and "assessCodeQuality [js ''a'', js ''b''] 12 0 = qualityOf 0 12 (length [js ''a'', js ''b''])"
    by (simp_all only: e c n)
  then show ?thesis by (simp add: qualityOf_def)
qed

text \<open>
  C6. The line count is the number of lines of the newline split whose trimmed form is not
  empty; a buffer of line feeds only has line count 0; the empty buffer has line count 0, no
  error, no warning, complexity 0, quality needs\_work and no success message.
\<close>

theorem C6_line_count:
  "lineCount (analyzePythonCode content)
     = length (filter (\<lambda>line. trim line \<noteq> []) (split_newline content))
   \<and> (set content \<subseteq> {LF} \<longrightarrow> lineCount (analyzePythonCode content) = 0)
   \<and> lineCount (analyzePythonCode []) = 0
   \<and> errorCount (analyzePythonCode []) = 0
   \<and> warningCount (analyzePythonCode []) = 0
   \<and> complexity (analyzePythonCode []) = 0
   \<and> quality (analyzePythonCode []) = needs_work
   \<and> lastSuccess (analyzePythonCode []) = None"
proof -
  have "analyzePythonCode [] =
      \<lparr> hasErrors = False, errorCount = 0, hasWarnings = False, warningCount = 0,
        lineCount = 0, complexity = 0, quality = needs_work, lastError = None,
        lastWarning = None, lastSuccess = None \<rparr>"
    by code_simp
  then have "lineCount (analyzePythonCode []) = 0"
    and "errorCount (analyzePythonCode []) = 0"
    and "warningCount (analyzePythonCode []) = 0"
    and "complexity (analyzePythonCode []) = 0"
    and "quality (analyzePythonCode []) = needs_work"
    and "lastSuccess (analyzePythonCode []) = None"
    by simp_all
  moreover have "set content \<subseteq> {LF} \<longrightarrow> lineCount (analyzePythonCode content) = 0"
    by (simp add: lineCount_only_LF)
  moreover note analyzePythonCode_lineCount [of content]
  ultimately show ?thesis by blast
qed

theorem C6_line_count_witness:
  "set [LF, LF, LF] \<subseteq> {LF} \<and> lineCount (analyzePythonCode [LF, LF, LF]) = 0
   \<and> lineCount (analyzePythonCode (js ''a'' @ [LF, SPACE, TAB, LF] @ js '' b '')) = 2"
proof -
  have h: "set [LF, LF, LF] \<subseteq> {LF}" by simp
  have f: "length (filter (\<lambda>line. trim line \<noteq> [])
             (split_newline (js ''a'' @ [LF, SPACE, TAB, LF] @ js '' b ''))) = 2"
    by code_simp
  from C6_line_count [of "[LF, LF, LF]"] h
  have "lineCount (analyzePythonCode [LF, LF, LF]) = 0" by blast
  moreover from C6_line_count [of "js ''a'' @ [LF, SPACE, TAB, LF] @ js '' b ''"] f
  have "lineCount (analyzePythonCode (js ''a'' @ [LF, SPACE, TAB, LF] @ js '' b '')) = 2"
    by simp
  ultimately show ?thesis using h by simp
qed

text \<open>
  C4. The complexity of a buffer is the sum, over its non-blank lines, of the contributions of
  \<open>lineContribution\<close>, which add up independently on one line.
\<close>

theorem C4_complexity_sum:
  "complexity (analyzePythonCode content)
     = sum_list (map lineContribution
         (filter (\<lambda>line. trim line \<noteq> []) (split_newline content)))"
  by (simp add: analyzePythonCode_def Let_def calculateComplexity_sum)

theorem C4_complexity_sum_witness:
  "complexity (analyzePythonCode
     (js ''         for x in y: z = lambda a: a and b'' @ [LF, LF] @ js ''if a or b:'')) = 8"
proof -
  have "sum_list (map lineContribution (filter (\<lambda>line. trim line \<noteq> [])
          (split_newline
            (js ''         for x in y: z = lambda a: a and b'' @ [LF, LF] @ js ''if a or b:''))))
        = 8"
    by code_simp
  with C4_complexity_sum
         [of "js ''         for x in y: z = lambda a: a and b'' @ [LF, LF] @ js ''if a or b:''"]
  show ?thesis by simp
qed

text \<open>
  C1. The claim: the callback is called if and only if the document has no previous result,
  or the new result differs from the previous one in \<open>hasErrors\<close>, \<open>errorCount\<close> or
  \<open>lineCount\<close>; in particular it is called on the first analysis of a document. The source
  does not call it on a first analysis: \<^verbatim>\<open>analyzeFile\<close> stores the new result before
  \<^verbatim>\<open>updateBotEmotion\<close> runs, and \<^verbatim>\<open>updateBotEmotion\<close> replaces a missing previous result by
  the cache entry, which is the new result itself. Here a fresh analyzer with a registered
  callback analyses \<^verbatim>\<open>a.py\<close> for the first time and the callback is not called. With a
  previous result the rule of the claim holds (\<open>analyzeFile_callback\<close>).
\<close>

theorem C1_first_analysis_not_propagated:
  "onEmotionChange (setEmotionCallback newCodeAnalyzer)
   \<and> analysisResults (setEmotionCallback newCodeAnalyzer) (js ''a.py'') = None
   \<and> snd (analyzeFile (\<lambda>f. f) (setEmotionCallback newCodeAnalyzer)
            \<lparr> fileName = js ''a.py'', languageId = js ''python'', getText = js ''x = 1'' \<rparr>)
       = None"
  by (simp add: analyzeFile_callback setEmotionCallback_def newCodeAnalyzer_def)

text \<open>
  C7. The emotion and the reason computed for a result \<open>r\<close> of document \<open>d\<close>: with errors,
  frustrated and the number of errors with the base name of \<open>d\<close>; otherwise with warnings,
  concerned and the base name; otherwise with no non-blank line, happy and the empty-file
  message; otherwise happy and the number of lines. When \<^verbatim>\<open>updateBotEmotion\<close> calls the
  callback, these are its arguments.
\<close>

theorem C7_emotion_precedence:
  "(hasErrors r \<longrightarrow>
      emotionAndReason basename r d
        = (js ''frustrated'',
           js ''Found '' @ numberToString (errorCount r) @ js '' syntax error(s) in '' @ basename d))
   \<and> (\<not> hasErrors r \<and> hasWarnings r \<longrightarrow>
      emotionAndReason basename r d = (js ''concerned'', js ''Warnings detected in '' @ basename d))
   \<and> (\<not> hasErrors r \<and> \<not> hasWarnings r \<and> lineCount r = 0 \<longrightarrow>
      emotionAndReason basename r d = (js ''happy'', js ''Empty file - ready to start coding!''))
   \<and> (\<not> hasErrors r \<and> \<not> hasWarnings r \<and> lineCount r \<noteq> 0 \<longrightarrow>
      emotionAndReason basename r d
        = (js ''happy'',
           js ''Great code! '' @ numberToString (lineCount r) @ js '' lines written, no errors found''))
   \<and> (updateBotEmotion basename this r d previous = None
      \<or> updateBotEmotion basename this r d previous = Some (emotionAndReason basename r d))"
  using updateBotEmotion_result [of basename this r d previous]
  by (simp add: emotionAndReason_def)

theorem C7_emotion_precedence_witness:
  "emotionAndReason (\<lambda>f. f) (analyzePythonCode (js ''print(1'')) (js ''a.py'')
     = (js ''frustrated'', js ''Found 1 syntax error(s) in a.py'')
   \<and> emotionAndReason (\<lambda>f. f) (analyzePythonCode (js ''x = 1 '')) (js ''a.py'')
     = (js ''concerned'', js ''Warnings detected in a.py'')
   \<and> emotionAndReason (\<lambda>f. f) (analyzePythonCode []) (js ''a.py'')
     = (js ''happy'', js ''Empty file - ready to start coding!'')
   \<and> emotionAndReason (\<lambda>f. f) (analyzePythonCode (js ''x = 1'')) (js ''a.py'')
     = (js ''happy'', js ''Great code! 1 lines written, no errors found'')"
proof -
  have one: "numberToString (Suc 0) = [49]" by code_simp
  have a: "hasErrors (analyzePythonCode (js ''print(1''))"
    "errorCount (analyzePythonCode (js ''print(1'')) = 1"
    by code_simp+
  have b: "\<not> hasErrors (analyzePythonCode (js ''x = 1 ''))"
    "hasWarnings (analyzePythonCode (js ''x = 1 ''))"
    by code_simp+
  have c: "\<not> hasErrors (analyzePythonCode [])" "\<not> hasWarnings (analyzePythonCode [])"
    "lineCount (analyzePythonCode []) = 0"
    by code_simp+
  have d: "\<not> hasErrors (analyzePythonCode (js ''x = 1''))"
    "\<not> hasWarnings (analyzePythonCode (js ''x = 1''))"
    "lineCount (analyzePythonCode (js ''x = 1'')) = 1"
    by code_simp+
  from C7_emotion_precedence [of "analyzePythonCode (js ''print(1'')" "\<lambda>f. f" "js ''a.py''"] a
  have "emotionAndReason (\<lambda>f. f) (analyzePythonCode (js ''print(1'')) (js ''a.py'')
     = (js ''frustrated'', js ''Found '' @ numberToString 1 @ js '' syntax error(s) in '' @ js ''a.py'')"
    by simp
  then have A: "emotionAndReason (\<lambda>f. f) (analyzePythonCode (js ''print(1'')) (js ''a.py'')
     = (js ''frustrated'', js ''Found 1 syntax error(s) in a.py'')"
    by (simp add: one js_def)
  from C7_emotion_precedence [of "analyzePythonCode (js ''x = 1 '')" "\<lambda>f. f" "js ''a.py''"] b
  have "emotionAndReason (\<lambda>f. f) (analyzePythonCode (js ''x = 1 '')) (js ''a.py'')
     = (js ''concerned'', js ''Warnings detected in '' @ js ''a.py'')"
    by simp
  then have B: "emotionAndReason (\<lambda>f. f) (analyzePythonCode (js ''x = 1 '')) (js ''a.py'')
     = (js ''concerned'', js ''Warnings detected in a.py'')"
    by (simp add: js_def)
  from C7_emotion_precedence [of "analyzePythonCode []" "\<lambda>f. f" "js ''a.py''"] c
  have C: "emotionAndReason (\<lambda>f. f) (analyzePythonCode []) (js ''a.py'')
     = (js ''happy'', js ''Empty file - ready to start coding!'')"
    by simp
  from C7_emotion_precedence [of "analyzePythonCode (js ''x = 1'')" "\<lambda>f. f" "js ''a.py''"] d
  have "emotionAndReason (\<lambda>f. f) (analyzePythonCode (js ''x = 1'')) (js ''a.py'')
     = (js ''happy'', js ''Great code! '' @ numberToString 1 @ js '' lines written, no errors found'')"
    by simp
  then have D: "emotionAndReason (\<lambda>f. f) (analyzePythonCode (js ''x = 1'')) (js ''a.py'')
     = (js ''happy'', js ''Great code! 1 lines written, no errors found'')"
    by (simp add: one js_def)
  from A B C D show ?thesis by blast
qed

text \<open>
  C8. If the analysis of the buffer of a document fails, \<^verbatim>\<open>analyzeFile\<close> returns normally with
  the analyzer as it was before the event, so the cache entry of the document is unchanged,
  and the callback is not called.
\<close>

theorem C8_fault_keeps_cache:
  assumes "analyse (getText document) = Inl error"
  shows "analyzeFileWith analyse basename this document = (this, None)"
  using assms by (simp add: analyzeFileWith_def)

theorem C8_fault_keeps_cache_witness:
  "(\<lambda>content. Inl Fault :: fault + CodeAnalysisResult) (js ''x = 1'') = Inl Fault
   \<and> analyzeFileWith (\<lambda>content. Inl Fault) (\<lambda>f. f)
        (fst (analyzeFile (\<lambda>f. f) (setEmotionCallback newCodeAnalyzer)
               \<lparr> fileName = js ''a.py'', languageId = js ''python'', getText = [] \<rparr>))
        \<lparr> fileName = js ''a.py'', languageId = js ''python'', getText = js ''x = 1'' \<rparr>
     = (fst (analyzeFile (\<lambda>f. f) (setEmotionCallback newCodeAnalyzer)
               \<lparr> fileName = js ''a.py'', languageId = js ''python'', getText = [] \<rparr>), None)"
proof -
  have h: "(\<lambda>content. Inl Fault :: fault + CodeAnalysisResult)
             (getText \<lparr> fileName = js ''a.py'', languageId = js ''python'', getText = js ''x = 1'' \<rparr>)
           = Inl Fault"
    by simp
  from C8_fault_keeps_cache [OF h] show ?thesis by simp
qed

text \<open>
  C10. Whenever the callback is called, by \<^verbatim>\<open>updateBotEmotion\<close> on any arguments or by
  \<^verbatim>\<open>analyzeFile\<close> on any analyzer and document, its emotion argument is one of the three
  labels frustrated, concerned and happy.
\<close>

theorem C10_emotion_labels:
  "(updateBotEmotion basename this r d previous = Some (emotion, reason)
      \<longrightarrow> emotion \<in> emotionLabels)
   \<and> (snd (analyzeFile basename this document) = Some (emotion', reason')
      \<longrightarrow> emotion' \<in> emotionLabels)
   \<and> emotionLabels = {js ''frustrated'', js ''concerned'', js ''happy''}"
proof -
  have "emotion \<in> emotionLabels"
    if "updateBotEmotion basename this r d previous = Some (emotion, reason)"
    using that updateBotEmotion_result [of basename this r d previous]
      emotionAndReason_label [of basename r d] by (metis fst_conv option.distinct(1) option.inject)
  moreover have "emotion' \<in> emotionLabels"
    if "snd (analyzeFile basename this document) = Some (emotion', reason')"
    using that emotionAndReason_label [of basename "analyzePythonCode (getText document)"
        "fileName document"]
    by (simp add: analyzeFile_callback split: if_splits option.splits)
  ultimately show ?thesis by (auto simp add: emotionLabels_def)
qed

theorem C10_emotion_labels_witness:
  "snd (analyzeFile (\<lambda>f. f)
          (fst (analyzeFile (\<lambda>f. f) (setEmotionCallback newCodeAnalyzer)
                 \<lparr> fileName = js ''a.py'', languageId = js ''python'', getText = [] \<rparr>))
          \<lparr> fileName = js ''a.py'', languageId = js ''python'', getText = js ''print(1'' \<rparr>)
     = Some (js ''frustrated'', js ''Found 1 syntax error(s) in a.py'')
   \<and> js ''frustrated'' \<in> emotionLabels
   \<and> updateBotEmotion (\<lambda>f. f) (setEmotionCallback newCodeAnalyzer)
         (analyzePythonCode (js ''x = 1 '')) (js ''a.py'') None
     = Some (js ''concerned'', js ''Warnings detected in a.py'')
   \<and> js ''concerned'' \<in> emotionLabels"
proof -
  have s: "snd (analyzeFile (\<lambda>f. f)
          (fst (analyzeFile (\<lambda>f. f) (setEmotionCallback newCodeAnalyzer)
                 \<lparr> fileName = js ''a.py'', languageId = js ''python'', getText = [] \<rparr>))
          \<lparr> fileName = js ''a.py'', languageId = js ''python'', getText = js ''print(1'' \<rparr>)
     = Some (js ''frustrated'', js ''Found 1 syntax error(s) in a.py'')"
    by code_simp
  have u: "updateBotEmotion (\<lambda>f. f) (setEmotionCallback newCodeAnalyzer)
         (analyzePythonCode (js ''x = 1 '')) (js ''a.py'') None
     = Some (js ''concerned'', js ''Warnings detected in a.py'')"
    by code_simp
  from s C10_emotion_labels [where basename = "\<lambda>f. f" and emotion' = "js ''frustrated''"
        and reason' = "js ''Found 1 syntax error(s) in a.py''"]
  have a: "js ''frustrated'' \<in> emotionLabels" by blast
  from u C10_emotion_labels [where basename = "\<lambda>f. f" and emotion = "js ''concerned''"
        and reason = "js ''Warnings detected in a.py''"]
  have b: "js ''concerned'' \<in> emotionLabels" by blast
  from s u a b show ?thesis by blast
qed

text \<open>
  C3. For the result \<open>r\<close> of every buffer: \<open>hasErrors\<close> is \<open>errorCount > 0\<close>, \<open>hasWarnings\<close> is
  \<open>warningCount > 0\<close>; \<open>lastError\<close> is present exactly when \<open>hasErrors\<close> and is then the first
  error message in line order (the first message of the first line that has one);
  \<open>lastWarning\<close> likewise for the warnings; \<open>lastSuccess\<close> is present exactly when
  \<open>hasErrors\<close> is false and \<open>lineCount > 0\<close>.
\<close>

theorem C3_result_invariants:
  assumes r: "r = analyzePythonCode content" and ls: "ls = split_newline content"
  shows "hasErrors r = (errorCount r > 0)
       \<and> hasWarnings r = (warningCount r > 0)
       \<and> errorCount r = length (checkPythonSyntax content)
       \<and> warningCount r = length (checkPythonWarnings content)
       \<and> (lastError r \<noteq> None) = hasErrors r
       \<and> lastError r = firstMessage (checkPythonSyntax content)
       \<and> (lastWarning r \<noteq> None) = hasWarnings r
       \<and> lastWarning r = firstMessage (checkPythonWarnings content)
       \<and> (lastSuccess r \<noteq> None) = (\<not> hasErrors r \<and> lineCount r > 0)
       \<and> (\<forall>e. lastError r = Some e \<longrightarrow>
             (\<exists>i<length ls. (\<forall>j<i. syntaxErrorsAt ls j = []) \<and> (\<exists>t. syntaxErrorsAt ls i = e # t)))
       \<and> (\<forall>w. lastWarning r = Some w \<longrightarrow>
             (\<exists>i<length ls. (\<forall>j<i. warningsAt ls j = []) \<and> (\<exists>t. warningsAt ls i = w # t)))"
proof -
  have counts: "hasErrors r = (errorCount r > 0)" "hasWarnings r = (warningCount r > 0)"
    "errorCount r = length (checkPythonSyntax content)"
    "warningCount r = length (checkPythonWarnings content)"
    by (simp_all add: r analyzePythonCode_def Let_def)
  have present: "(lastError r \<noteq> None) = hasErrors r" "(lastWarning r \<noteq> None) = hasWarnings r"
    "(lastSuccess r \<noteq> None) = (\<not> hasErrors r \<and> lineCount r > 0)"
    by (simp_all add: r analyzePythonCode_def Let_def)
  have firstE: "lastError r = firstMessage (checkPythonSyntax content)"
    by (simp add: r analyzePythonCode_lastError)
  have firstW: "lastWarning r = firstMessage (checkPythonWarnings content)"
    by (simp add: r analyzePythonCode_lastWarning)
  have orderE: "\<forall>e. lastError r = Some e \<longrightarrow>
      (\<exists>i<length ls. (\<forall>j<i. syntaxErrorsAt ls j = []) \<and> (\<exists>t. syntaxErrorsAt ls i = e # t))"
    using firstMessage_concat_first [of "syntaxErrorsAt ls" "length ls"]
    by (simp add: firstE checkPythonSyntax_concat ls)
  have orderW: "\<forall>w. lastWarning r = Some w \<longrightarrow>
      (\<exists>i<length ls. (\<forall>j<i. warningsAt ls j = []) \<and> (\<exists>t. warningsAt ls i = w # t))"
    using firstMessage_concat_first [of "warningsAt ls" "length ls"]
    by (simp add: firstW checkPythonWarnings_concat ls)
  from counts present firstE firstW orderE orderW show ?thesis by blast
qed

theorem C3_result_invariants_witness:
  "hasErrors (analyzePythonCode (js ''x = 1'' @ LF # js ''print(1 '' @ LF # js ''if x''))
   \<and> errorCount (analyzePythonCode (js ''x = 1'' @ LF # js ''print(1 '' @ LF # js ''if x'')) = 2
   \<and> lastError (analyzePythonCode (js ''x = 1'' @ LF # js ''print(1 '' @ LF # js ''if x''))
       = Some (js ''Line 2: Missing closing parenthesis in print statement'')
   \<and> lastWarning (analyzePythonCode (js ''x = 1'' @ LF # js ''print(1 '' @ LF # js ''if x''))
       = Some (js ''Line 2: Trailing whitespace'')
   \<and> lastSuccess (analyzePythonCode (js ''x = 1'' @ LF # js ''print(1 '' @ LF # js ''if x''))
       = None"
proof -
  let ?c = "js ''x = 1'' @ LF # js ''print(1 '' @ LF # js ''if x''"
  have e: "checkPythonSyntax ?c =
      [js ''Line 2: Missing closing parenthesis in print statement'',
       js ''Line 3: Missing colon after if statement'']"
    by code_simp
  have w: "checkPythonWarnings ?c = [js ''Line 2: Trailing whitespace'']"
    by code_simp
  note inst = C3_result_invariants [OF refl refl, of ?c]
  from inst have "errorCount (analyzePythonCode ?c) = length (checkPythonSyntax ?c)" by blast
  then have n: "errorCount (analyzePythonCode ?c) = 2" by (simp only: e) simp
  from inst have "hasErrors (analyzePythonCode ?c) = (errorCount (analyzePythonCode ?c) > 0)"
    by blast
  with n have h: "hasErrors (analyzePythonCode ?c)" by simp
  from inst have "lastError (analyzePythonCode ?c) = firstMessage (checkPythonSyntax ?c)" by blast
  then have le: "lastError (analyzePythonCode ?c)
       = Some (js ''Line 2: Missing closing parenthesis in print statement'')"
    by (simp only: e firstMessage_def list.case)
  from inst have "lastWarning (analyzePythonCode ?c) = firstMessage (checkPythonWarnings ?c)"
    by blast
  then have lw: "lastWarning (analyzePythonCode ?c) = Some (js ''Line 2: Trailing whitespace'')"
    by (simp only: w firstMessage_def list.case)
  from inst have "(lastSuccess (analyzePythonCode ?c) \<noteq> None)
      = (\<not> hasErrors (analyzePythonCode ?c) \<and> lineCount (analyzePythonCode ?c) > 0)"
    by blast
  with h have ls: "lastSuccess (analyzePythonCode ?c) = None" by simp
  from n h le lw ls show ?thesis by simp
qed

text \<open>
  C5, as stated, fails: the error is reported for the line \<^verbatim>\<open>retry: int = 3\<close>, which contains
  \<^verbatim>\<open>try:\<close> but whose trimmed form does not start with it.
\<close>

theorem C5_try_anywhere_counterexample:
  "lineMessage 1 ''try block without matching except''
     \<in> set (checkPythonSyntax (js ''retry: int = 3''))
   \<and> \<not> startsWith (trim (split_newline (js ''retry: int = 3'') ! 0)) (js ''try:'')"
  by code_simp

text \<open>
  C5, amended. The error ``try block without matching except'' is reported for a line exactly
  when the line contains \<^verbatim>\<open>try:\<close> anywhere and no later line whose trimmed form starts with
  \<^verbatim>\<open>except\<close> occurs before a later line whose trimmed form starts with \<^verbatim>\<open>def \<close> or
  \<^verbatim>\<open>class \<close> (or the end of the buffer); the buffer \<^verbatim>\<open>try:\<close> followed by an indented
  \<^verbatim>\<open>pass\<close> line yields that error, and only it, at line 1.
\<close>

theorem C5_try_without_except:
  assumes "i < length (split_newline content)"
  shows "(lineMessage (i + 1) ''try block without matching except''
            \<in> set (checkPythonSyntax content))
         = (str_includes (split_newline content ! i) (js ''try:'')
            \<and> \<not> exceptReachable (split_newline content) i)
       \<and> checkPythonSyntax (js ''try:'' @ LF # js ''    pass'' @ [LF])
         = [lineMessage 1 ''try block without matching except'']"
proof -
  have "checkPythonSyntax (js ''try:'' @ LF # js ''    pass'' @ [LF])
         = [lineMessage 1 ''try block without matching except'']"
    by code_simp
  moreover from assms
  have "(lineMessage (i + 1) ''try block without matching except''
            \<in> set (checkPythonSyntax content))
         = (str_includes (split_newline content ! i) (js ''try:'')
            \<and> \<not> exceptReachable (split_newline content) i)"
    by (auto simp add: try_message_reported hasMatchingExcept_iff)
  ultimately show ?thesis by simp
qed

theorem C5_try_without_except_witness:
  "(0::nat) < length (split_newline (js ''retry: int = 3''))
   \<and> str_includes (split_newline (js ''retry: int = 3'') ! 0) (js ''try:'')
   \<and> \<not> exceptReachable (split_newline (js ''retry: int = 3'')) 0
   \<and> (1::nat) < length (split_newline (js ''def f():'' @ LF # js ''  try:'' @ LF # js ''    x = 1'' @ LF # js ''  except E:''))
   \<and> lineMessage 2 ''try block without matching except''
        \<notin> set (checkPythonSyntax (js ''def f():'' @ LF # js ''  try:'' @ LF # js ''    x = 1'' @ LF # js ''  except E:''))"
proof -
  let ?c = "js ''retry: int = 3''"
  let ?d = "js ''def f():'' @ LF # js ''  try:'' @ LF # js ''    x = 1'' @ LF # js ''  except E:''"
  have h: "0 < length (split_newline ?c)" by code_simp
  have m: "lineMessage (0 + 1) ''try block without matching except'' \<in> set (checkPythonSyntax ?c)"
    by code_simp
  have h2: "1 < length (split_newline ?d)" by code_simp
  have r: "exceptReachable (split_newline ?d) 1" by code_simp
  from C5_try_without_except [OF h] m
  have a: "str_includes (split_newline ?c ! 0) (js ''try:'') \<and> \<not> exceptReachable (split_newline ?c) 0"
    by blast
  from C5_try_without_except [OF h2] r
  have "lineMessage (1 + 1) ''try block without matching except'' \<notin> set (checkPythonSyntax ?d)"
    by blast
  then have b: "lineMessage 2 ''try block without matching except'' \<notin> set (checkPythonSyntax ?d)"
    by (simp only: one_add_one not_False_eq_True)
  from h a h2 b show ?thesis by blast
qed

end
